theory Spec2Isabelle
  imports Complex_Main
begin

section \<open>The point-light cloth display plugin (plc\_display\_sizeVar)\<close>

text \<open>
  A shallow embedding of \<^verbatim>\<open>plugin.trial\<close> of
  \<^verbatim>\<open>src/Demos/helpers/plc_display_sizeVar_videoCreate.js\<close>: the grid sampler, the
  cloth-centre geometry, the ISI adjustment of the trial duration, the log-scale size
  controller and the per-refresh handler \<^verbatim>\<open>move_disc\<close> with its telemetry.

  JavaScript numbers are modelled as real numbers. A value that is not a finite number
  in the source (\<^verbatim>\<open>undefined\<close>, \<^verbatim>\<open>NaN\<close>, \<^verbatim>\<open>Infinity\<close>) is \<open>None\<close> of an option type.
  Every call of \<^verbatim>\<open>Math.random()\<close> and of \<^verbatim>\<open>performance.now()\<close> is an input of the model.
\<close>

subsection \<open>JavaScript primitives\<close>

text \<open>
  \<^verbatim>\<open>parseInt(x)\<close> on a number converts the number to a string and reads the leading
  integer of that string. A number with \<open>10\<^sup>-\<^sup>6 \<le> |x| < 10\<^sup>2\<^sup>1\<close> prints in decimal notation,
  so the result is the integer part; any other non-zero number prints in exponent notation
  (\<^verbatim>\<open>5e-7\<close>, \<^verbatim>\<open>1.2e+21\<close>), so the result is its leading significant digit:
  \<^verbatim>\<open>parseInt(0.0000005)\<close> is 5 and \<^verbatim>\<open>parseInt(0.000005)\<close> is 0.
\<close>

function lead_digit :: "real \<Rightarrow> int" where
  "lead_digit a =
     (if a \<le> 0 then 0
      else if a < 1 then lead_digit (a * 10)
      else if 10 \<le> a then lead_digit (a / 10)
      else \<lfloor>a\<rfloor>)"
  by pat_completeness auto
termination
proof (relation "measure (\<lambda>a. nat \<bar>\<lfloor>log 10 a\<rfloor>\<bar>)")
  show "wf (measure (\<lambda>a. nat \<bar>\<lfloor>log 10 a\<rfloor>\<bar>))" by simp
next
  fix a :: real
  assume a: "\<not> a \<le> 0" "a < 1"
  have up: "\<lfloor>log 10 (a * 10)\<rfloor> = \<lfloor>log 10 a\<rfloor> + 1"
    using a by (simp add: log_mult)
  have neg: "\<lfloor>log 10 a\<rfloor> < 0" using a by simp
  show "(a * 10, a) \<in> measure (\<lambda>a. nat \<bar>\<lfloor>log 10 a\<rfloor>\<bar>)"
    unfolding in_measure up using neg by linarith
next
  fix a :: real
  assume a: "\<not> a \<le> 0" "\<not> a < 1" "10 \<le> a"
  have down: "\<lfloor>log 10 (a / 10)\<rfloor> = \<lfloor>log 10 a\<rfloor> - 1"
    using a by (simp add: log_divide)
  have pos: "1 \<le> \<lfloor>log 10 a\<rfloor>" using a by (simp add: le_floor_iff le_log_iff)
  show "(a / 10, a) \<in> measure (\<lambda>a. nat \<bar>\<lfloor>log 10 a\<rfloor>\<bar>)"
    unfolding in_measure down using pos by linarith
qed

declare lead_digit.simps [simp del]

definition parseInt :: "real \<Rightarrow> int" where
  "parseInt x =
     (if x = 0 then 0
      else if 1 / 10 ^ 6 \<le> \<bar>x\<bar> \<and> \<bar>x\<bar> < 10 ^ 21
        then (if x < 0 then - 1 else 1) * \<lfloor>\<bar>x\<bar>\<rfloor>
      else (if x < 0 then - 1 else 1) * lead_digit \<bar>x\<bar>)"

text \<open>The array read \<^verbatim>\<open>xs[i]\<close>: \<^verbatim>\<open>undefined\<close> unless \<open>i\<close> is an index of the array.\<close>

definition at_index :: "'a list \<Rightarrow> real \<Rightarrow> 'a option" where
  "at_index xs i =
     (if i = of_int \<lfloor>i\<rfloor> \<and> 0 \<le> i \<and> i < real (length xs) then Some (xs ! nat \<lfloor>i\<rfloor>) else None)"

text \<open>
  \<^verbatim>\<open>Math.min(...xs)\<close> and \<^verbatim>\<open>Math.max(...xs)\<close>: of an empty array they are
  \<^verbatim>\<open>Infinity\<close> and \<^verbatim>\<open>-Infinity\<close>.
\<close>

definition Math_min :: "real list \<Rightarrow> real option" where
  "Math_min xs = (case xs of [] \<Rightarrow> None | x # r \<Rightarrow> Some (fold min r x))"

definition Math_max :: "real list \<Rightarrow> real option" where
  "Math_max xs = (case xs of [] \<Rightarrow> None | x # r \<Rightarrow> Some (fold max r x))"

subsection \<open>Geometry: calculateClothCenter\<close>

text \<open>
  \<^verbatim>\<open>calculateClothCenter\<close> assigns the ambient variables \<^verbatim>\<open>minX, minY, maxX, maxY,
  clothWidth, clothHeight\<close> and returns the centre; the record holds all of them. On empty
  arrays every one of them is infinite or \<^verbatim>\<open>NaN\<close>: the result is \<open>None\<close>.
\<close>

record ClothBox =
  minX :: real
  minY :: real
  maxX :: real
  maxY :: real
  clothWidth :: real
  clothHeight :: real
  centerX :: real
  centerY :: real

definition calculateClothCenter :: "real list \<Rightarrow> real list \<Rightarrow> ClothBox option" where
  "calculateClothCenter allX allY =
     (case (Math_min allX, Math_min allY, Math_max allX, Math_max allY) of
        (Some mnX, Some mnY, Some mxX, Some mxY) \<Rightarrow>
          Some \<lparr> minX = mnX, minY = mnY, maxX = mxX, maxY = mxY,
                 clothWidth = mxX - mnX, clothHeight = mxY - mnY,
                 centerX = mnX + (mxX - mnX) / 2, centerY = mnY + (mxY - mnY) / 2 \<rparr>
      | _ \<Rightarrow> None)"

subsection \<open>Sampler: one dot per grid cell\<close>

text \<open>
  \<^verbatim>\<open>dot_posX[d]\<close> and \<^verbatim>\<open>dot_posY[d]\<close> are the trajectory of dot \<open>d\<close>, indexed by frame; the
  reference frame is frame 0. \<open>rnd k\<close> is the value of the \<open>k\<close>-th call of
  \<^verbatim>\<open>Math.random()\<close> in the grid loop (two calls per cell).
\<close>

record Selection =
  selectedDotIDs :: "nat list"
  selected_dot_posX :: "real list list"
  selected_dot_posY :: "real list list"
  totalSelected :: nat

definition dotsPerBin :: nat where
  "dotsPerBin = 1"

definition dot_distance ::
  "real list list \<Rightarrow> real list list \<Rightarrow> real \<Rightarrow> real \<Rightarrow> nat \<Rightarrow> real" where
  "dot_distance dot_posX dot_posY offsetX offsetY dotID =
     sqrt ((dot_posX ! dotID ! 0 - offsetX)\<^sup>2 + (dot_posY ! dotID ! 0 - offsetY)\<^sup>2)"

text \<open>
  \<^verbatim>\<open>closestDotIDs.sort((a, b) => a.distance - b.distance)\<close>: a stable sort of all dot ids
  by distance (\<open>sort_key\<close> is the stable insertion sort).
\<close>

definition closestDotIDs ::
  "real list list \<Rightarrow> real list list \<Rightarrow> real \<Rightarrow> real \<Rightarrow> nat list" where
  "closestDotIDs dot_posX dot_posY offsetX offsetY =
     sort_key (dot_distance dot_posX dot_posY offsetX offsetY) [0..<length dot_posX]"

text \<open>The assignment \<^verbatim>\<open>xs[n] = v\<close>, for \<open>n\<close> at most the length of the array.\<close>

definition set_at :: "'a list \<Rightarrow> nat \<Rightarrow> 'a \<Rightarrow> 'a list" where
  "set_at xs n v = (if n < length xs then xs[n := v] else xs @ [v])"

text \<open>The loop \<^verbatim>\<open>for (const dist of closestDotIDs)\<close> with its \<^verbatim>\<open>continue\<close> and \<^verbatim>\<open>break\<close>.\<close>

fun add_closest ::
  "real list list \<Rightarrow> real list list \<Rightarrow> nat \<Rightarrow> nat list \<Rightarrow> nat \<Rightarrow> Selection \<Rightarrow> Selection" where
  "add_closest dot_posX dot_posY dotsNeeded [] added s = s"
| "add_closest dot_posX dot_posY dotsNeeded (d # ds) added s =
     (if d \<in> set (selectedDotIDs s) then add_closest dot_posX dot_posY dotsNeeded ds added s
      else if added \<ge> dotsPerBin \<or> totalSelected s \<ge> dotsNeeded then s
      else add_closest dot_posX dot_posY dotsNeeded ds (added + 1)
             (s\<lparr> selected_dot_posX := set_at (selected_dot_posX s) (totalSelected s) (dot_posX ! d),
                 selected_dot_posY := set_at (selected_dot_posY s) (totalSelected s) (dot_posY ! d),
                 selectedDotIDs := selectedDotIDs s @ [d],
                 totalSelected := totalSelected s + 1 \<rparr>))"

record Grid =
  binX_num :: nat
  binY_num :: nat
  offsetFactor :: real

definition xbin :: "ClothBox \<Rightarrow> Grid \<Rightarrow> real" where
  "xbin box g = clothWidth box / real (binX_num g)"

definition ybin :: "ClothBox \<Rightarrow> Grid \<Rightarrow> real" where
  "ybin box g = clothHeight box / real (binY_num g)"

text \<open>The cells in the order of the two nested loops: \<open>x\<close> outside, \<open>y\<close> inside.\<close>

definition cells :: "Grid \<Rightarrow> (nat \<times> nat) list" where
  "cells g = List.product [0..<binX_num g] [0..<binY_num g]"

text \<open>The jittered anchor \<^verbatim>\<open>(offsetX, offsetY)\<close> of the \<open>k\<close>-th cell.\<close>

definition anchor :: "ClothBox \<Rightarrow> Grid \<Rightarrow> (nat \<Rightarrow> real) \<Rightarrow> nat \<Rightarrow> real \<times> real" where
  "anchor box g rnd k =
     (let (x, y) = cells g ! k in
        (minX box + (real x + offsetFactor g * (rnd (2 * k) - 0.5) + 0.5) * xbin box g,
         minY box + (real y + offsetFactor g * (rnd (2 * k + 1) - 0.5) + 0.5) * ybin box g))"

definition cell_step ::
  "real list list \<Rightarrow> real list list \<Rightarrow> ClothBox \<Rightarrow> Grid \<Rightarrow> (nat \<Rightarrow> real) \<Rightarrow>
   nat \<Rightarrow> Selection \<Rightarrow> Selection" where
  "cell_step dot_posX dot_posY box g rnd k s =
     (let (offsetX, offsetY) = anchor box g rnd k in
        add_closest dot_posX dot_posY (binX_num g * binY_num g)
          (closestDotIDs dot_posX dot_posY offsetX offsetY) 0 s)"

definition grid_select ::
  "real list list \<Rightarrow> real list list \<Rightarrow> ClothBox \<Rightarrow> Grid \<Rightarrow> (nat \<Rightarrow> real) \<Rightarrow> Selection" where
  "grid_select dot_posX dot_posY box g rnd =
     fold (cell_step dot_posX dot_posY box g rnd) [0..<length (cells g)]
       \<lparr> selectedDotIDs = [], selected_dot_posX = [], selected_dot_posY = [],
         totalSelected = 0 \<rparr>"

subsection \<open>Moving the cloth to the screen centre\<close>

text \<open>
  The pass guarded by \<^verbatim>\<open>trial.centerCloth == true\<close>. \<^verbatim>\<open>allX\<close> and \<^verbatim>\<open>allY\<close> are emptied
  first in either case. The displacement is taken from \<^verbatim>\<open>clothCenterX, clothCenterY\<close>, which
  were computed from frame 0 of every dot of the cloud, before the selection. The arrays
  \<^verbatim>\<open>selected_dot_posX[i]\<close> and \<^verbatim>\<open>selected_dot_posY[i]\<close> have the same length (they are
  filled by the same loop), and \<^verbatim>\<open>allX, allY\<close> receive frame 0 of each translated trajectory.
\<close>

record Centered =
  moved_posX :: "real list list"
  moved_posY :: "real list list"
  allX_after :: "real list"
  allY_after :: "real list"
  clothCenter_after :: "ClothBox option"

definition move_to_center ::
  "bool \<Rightarrow> real \<times> real \<Rightarrow> ClothBox \<Rightarrow> real list list \<Rightarrow> real list list \<Rightarrow> Centered" where
  "move_to_center centerCloth screenCenter clothCenter posX posY =
     (if centerCloth then
        (let deltaX = fst screenCenter - centerX clothCenter;
             deltaY = snd screenCenter - centerY clothCenter;
             posX' = map (map (\<lambda>v. v + deltaX)) posX;
             posY' = map (map (\<lambda>v. v + deltaY)) posY;
             allX = concat (map (take 1) posX');
             allY = concat (map (take 1) posY')
         in \<lparr> moved_posX = posX', moved_posY = posY', allX_after = allX, allY_after = allY,
               clothCenter_after = calculateClothCenter allX allY \<rparr>)
      else \<lparr> moved_posX = posX, moved_posY = posY, allX_after = [], allY_after = [],
             clothCenter_after = Some clothCenter \<rparr>)"

subsection \<open>ISI adjustment of the trial duration\<close>

text \<open>
  \<^verbatim>\<open>if (trial.isi > 0) { if (trial.isiSlows === true) { trial_duration += (frame_num - 1) * (trial.isi / 1000) } }\<close>
\<close>

definition isi_adjust :: "real \<Rightarrow> bool \<Rightarrow> real \<Rightarrow> real \<Rightarrow> real" where
  "isi_adjust isi_ms isiSlows_flag frame_count duration =
     (if isi_ms > 0 then
        (if isiSlows_flag then
           (let oneCycleIsi = (frame_count - 1) * (isi_ms / 1000) in duration + oneCycleIsi)
         else duration)
      else duration)"

subsection \<open>SizeController\<close>

text \<open>
  The closure variables \<^verbatim>\<open>logScale, currentSizeFactor, directionSign\<close> and the constants
  \<^verbatim>\<open>logMin, logMax, logStepBase\<close> of the size-variation setup.
\<close>

record SizeState =
  logScale :: real
  currentSizeFactor :: real
  directionSign :: real

record SizeBounds =
  logMin :: real
  logMax :: real
  logStepBase :: real

text \<open>
  \<^verbatim>\<open>updateSizeFactor\<close>; \<open>r\<close> is the value of its call of \<^verbatim>\<open>Math.random()\<close>.
\<close>

definition updateSizeFactor :: "SizeBounds \<Rightarrow> real \<Rightarrow> SizeState \<Rightarrow> SizeState" where
  "updateSizeFactor b r s =
     (let directionSign0 = (if r < 0.5 then 1 else - 1);
          tempScale = logScale s + directionSign0 * logStepBase b;
          directionSign1 =
            (if tempScale > logMax b \<or> tempScale < logMin b then directionSign0 * (- 1)
             else directionSign0);
          logScale1 = logScale s + directionSign1 * logStepBase b
      in \<lparr> logScale = logScale1, currentSizeFactor = exp logScale1,
            directionSign = directionSign1 \<rparr>)"

definition getPixelScale :: "SizeState \<Rightarrow> real" where
  "getPixelScale s = currentSizeFactor s"

text \<open>Repeated steps, one per draw of the direction.\<close>

fun size_steps :: "SizeBounds \<Rightarrow> real list \<Rightarrow> SizeState \<Rightarrow> SizeState" where
  "size_steps b [] s = s"
| "size_steps b (r # rs) s = size_steps b rs (updateSizeFactor b r s)"

subsection \<open>Frame-index mapping\<close>

text \<open>
  The index computed twice in \<^verbatim>\<open>move_disc\<close> (as \<^verbatim>\<open>frameIndex\<close> and as \<^verbatim>\<open>nextIndex\<close>):
  \<^verbatim>\<open>parseInt(percent_time * frame_num)\<close>, reversed for reverse playback, clamped by
  \<^verbatim>\<open>Math.max(0, Math.min(index, frame_num - 1))\<close>. \<^verbatim>\<open>frame_num\<close> is a number and need
  not be an integer (\<^verbatim>\<open>frame_num = trial_duration * fps\<close>).
\<close>

definition frame_index :: "bool \<Rightarrow> real \<Rightarrow> real \<Rightarrow> real" where
  "frame_index reverse percent_time frame_count =
     (let idx = (if reverse then frame_count - 1 - of_int (parseInt (percent_time * frame_count))
                 else of_int (parseInt (percent_time * frame_count)))
      in max 0 (min idx (frame_count - 1)))"

text \<open>The same mapping from the elapsed time: \<^verbatim>\<open>percent_time = time_elapsed / trial_duration\<close>.\<close>

definition index_at :: "bool \<Rightarrow> real \<Rightarrow> real \<Rightarrow> real \<Rightarrow> real" where
  "index_at reverse duration frame_count time_elapsed =
     frame_index reverse (time_elapsed / duration) frame_count"

subsection \<open>Telemetry rows and drawing\<close>

text \<open>
  A cell of the frame-by-frame table: \<^verbatim>\<open>null\<close>, a finite number, or a number that is not
  finite. The frame column holds a frame index or the string \<^verbatim>\<open>'blank'\<close>. The source keeps
  one array per column and pushes to all of them in the same tick; the model keeps one
  list of rows.
\<close>

datatype jsnum = Null | NotFinite | Num real

datatype frameNumber = Blank | Frame real

record Row =
  csv_clothWidth :: jsnum
  csv_clothHeight :: jsnum
  csv_scalingFactor :: jsnum
  csv_isi :: real
  csv_isiSlows :: bool
  csv_displayFrameNumber :: frameNumber
  csv_timeElapsed :: real
  csv_timeInCurrentDisplayFrame :: real
  csv_isiMode :: string

text \<open>
  \<^verbatim>\<open>let currentScalingDirection = 0\<close> is declared before \<^verbatim>\<open>move_disc\<close> and never assigned
  again. On a number \<open>v\<close>, \<^verbatim>\<open>v || 0\<close> is \<open>v\<close>: the handler's \<^verbatim>\<open>currentScalingDirection || 0\<close>,
  \<^verbatim>\<open>trial.isi || 0\<close> and \<^verbatim>\<open>trial.frameDur || 0\<close> are the values themselves.
\<close>

definition currentScalingDirection :: real where
  "currentScalingDirection = 0"

text \<open>\<^verbatim>\<open>Math.max(...ps) - Math.min(...ps)\<close> over the positions drawn in one tick.\<close>

definition extent :: "real option list \<Rightarrow> jsnum" where
  "extent ps =
     (case those ps of
        None \<Rightarrow> NotFinite
      | Some vs \<Rightarrow>
          (case (Math_max vs, Math_min vs) of
             (Some hi, Some lo) \<Rightarrow> Num (hi - lo)
           | _ \<Rightarrow> NotFinite))"

text \<open>
  The trial parameters read by \<^verbatim>\<open>move_disc\<close> (all but \<^verbatim>\<open>trial_duration\<close> have a default in
  \<^verbatim>\<open>plugin.info\<close>), and the variables of the setup that the handler reads and never writes.
\<close>

record Env =
  reversePlayback :: bool
  frameDur :: real
  isi :: real
  isiSlows :: bool
  isiMode :: string
  sizeVariation :: bool
  static :: bool
  trial_trial_duration :: "real option"
  random_frame :: real
  frame_num :: real
  start_time :: real
  clothCenterX :: real
  clothCenterY :: real
  shown_posX :: "real list list"
  shown_posY :: "real list list"
  sizeBounds :: SizeBounds

text \<open>
  The position of one dot in one tick: scaled about the fixed cloth centre, or, for a
  static display, the stored position at \<^verbatim>\<open>parseInt(random_frame)\<close>.
\<close>

definition get_pos :: "Env \<Rightarrow> real \<Rightarrow> real \<Rightarrow> real \<Rightarrow> real list \<Rightarrow> real option" where
  "get_pos e center scale displayFrameIndex traj =
     (if \<not> static e then
        (case at_index traj displayFrameIndex of
           None \<Rightarrow> None
         | Some orig \<Rightarrow> Some (center + (orig - center) * scale))
      else at_index traj (of_int (parseInt (random_frame e))))"

text \<open>
  The loop over the shown dots. Its bound is \<^verbatim>\<open>selectedDotIDs.length\<close>, which the setup
  resets to the first \<^verbatim>\<open>gridX * gridY\<close> entries of a shuffle of all dot ids; \<open>shown_posX\<close> and
  \<open>shown_posY\<close> are \<^verbatim>\<open>selected_dot_posX\<close> and \<^verbatim>\<open>selected_dot_posY\<close> up to that bound.
\<close>

definition inFrame_x :: "Env \<Rightarrow> real \<Rightarrow> real \<Rightarrow> real option list" where
  "inFrame_x e scale displayFrameIndex =
     map (get_pos e (clothCenterX e) scale displayFrameIndex) (shown_posX e)"

definition inFrame_y :: "Env \<Rightarrow> real \<Rightarrow> real \<Rightarrow> real option list" where
  "inFrame_y e scale displayFrameIndex =
     map (get_pos e (clothCenterY e) scale displayFrameIndex) (shown_posY e)"

subsection \<open>The refresh handler move\_disc\<close>

text \<open>
  The variables that \<^verbatim>\<open>move_disc\<close> and \<^verbatim>\<open>updateSizeFactor\<close> write. \<open>drawn\<close> collects, tick by
  tick, the positions passed to \<^verbatim>\<open>drawDots\<close> (the source pushes the same values to
  \<^verbatim>\<open>shown_pos_frameX[i]\<close> and \<^verbatim>\<open>shown_pos_frameY[i]\<close>). \<open>ended\<close> is set when the handler schedules
  \<^verbatim>\<open>end_trial\<close> instead of the next animation frame. \<open>sizeUpdates\<close> counts the calls of
  \<^verbatim>\<open>updateSizeFactor\<close>; it is not a variable of the source.
\<close>

record State =
  lastDisplayedFrameIndex :: real
  currentDisplayFrameStartTime :: real
  hasShownVisibleTickForThisFrame :: bool
  blankFrameStartTime :: real
  trial_duration :: real
  sizeState :: SizeState
  csv_frameData :: "Row list"
  drawn :: "(real option list \<times> real option list) list"
  shown_frameNum :: nat
  ended :: bool
  sizeUpdates :: nat

text \<open>One tick: the value of \<^verbatim>\<open>performance.now()\<close> and of the next \<^verbatim>\<open>Math.random()\<close>.\<close>

record Tick =
  current_time :: real
  direction_draw :: real

text \<open>
  The body shared by the hold branch and by the visible branch of the blank mode: draw
  every dot of \<^verbatim>\<open>displayFrameIndex = lastDisplayedFrameIndex\<close> and push one row.
\<close>

definition show_frame :: "Env \<Rightarrow> real \<Rightarrow> real \<Rightarrow> State \<Rightarrow> State" where
  "show_frame e time_elapsed timeInCurrentFrame s =
     (let displayFrameIndex = lastDisplayedFrameIndex s;
          scale = (if sizeVariation e then getPixelScale (sizeState s) else 1);
          xs = inFrame_x e scale displayFrameIndex;
          ys = inFrame_y e scale displayFrameIndex;
          row = \<lparr> csv_clothWidth = extent xs, csv_clothHeight = extent ys,
                  csv_scalingFactor = Num currentScalingDirection,
                  csv_isi = isi e, csv_isiSlows = isiSlows e,
                  csv_displayFrameNumber = Frame (lastDisplayedFrameIndex s),
                  csv_timeElapsed = time_elapsed,
                  csv_timeInCurrentDisplayFrame = timeInCurrentFrame,
                  csv_isiMode = isiMode e \<rparr>
      in s\<lparr> csv_frameData := csv_frameData s @ [row],
            drawn := drawn s @ [(xs, ys)],
            shown_frameNum := shown_frameNum s + 1 \<rparr>)"

definition blank_row :: "Env \<Rightarrow> real \<Rightarrow> real \<Rightarrow> Row" where
  "blank_row e time_elapsed timeInCurrentFrame =
     \<lparr> csv_clothWidth = Null, csv_clothHeight = Null, csv_scalingFactor = Null,
       csv_isi = isi e, csv_isiSlows = isiSlows e,
       csv_displayFrameNumber = Blank,
       csv_timeElapsed = time_elapsed,
       csv_timeInCurrentDisplayFrame = timeInCurrentFrame,
       csv_isiMode = isiMode e \<rparr>"

text \<open>The ISI/hold logic: whether the tick may advance, with the timers it resets.\<close>

definition advance_allowed :: "Env \<Rightarrow> real \<Rightarrow> State \<Rightarrow> bool \<times> State" where
  "advance_allowed e now s =
     (let timeInCurrentFrameMs = now - currentDisplayFrameStartTime s;
          frameDurMs = frameDur e;
          isiMs = isi e
      in if isiMode e = ''hold'' then
           (if timeInCurrentFrameMs \<ge> frameDurMs
            then (True, s\<lparr> currentDisplayFrameStartTime := now \<rparr>)
            else (False, s))
         else
           (if \<not> hasShownVisibleTickForThisFrame s then (False, s)
            else if isiMs = 0 \<or> now - blankFrameStartTime s \<ge> isiMs
            then (True, s\<lparr> hasShownVisibleTickForThisFrame := False,
                           currentDisplayFrameStartTime := now \<rparr>)
            else (False, s)))"

text \<open>The block \<^verbatim>\<open>if (shouldAdvanceFrame) { ... }\<close>.\<close>

definition advance_frame :: "Env \<Rightarrow> real \<Rightarrow> real \<Rightarrow> State \<Rightarrow> State" where
  "advance_frame e percent_time r s =
     (let nextIndex = frame_index (reversePlayback e) percent_time (frame_num e);
          previousIndex = lastDisplayedFrameIndex s;
          s1 = s\<lparr> lastDisplayedFrameIndex := nextIndex \<rparr>;
          s2 = (if sizeVariation e \<and> lastDisplayedFrameIndex s1 \<noteq> previousIndex
                then s1\<lparr> sizeState := updateSizeFactor (sizeBounds e) r (sizeState s1),
                         sizeUpdates := sizeUpdates s1 + 1 \<rparr>
                else s1)
      in s2\<lparr> hasShownVisibleTickForThisFrame := False \<rparr>)"

text \<open>The ISI/hold logic followed by the advance it allows.\<close>

definition advance_tick :: "Env \<Rightarrow> real \<Rightarrow> real \<Rightarrow> real \<Rightarrow> State \<Rightarrow> State" where
  "advance_tick e now percent_time r s =
     (let (shouldAdvanceFrame, s1) = advance_allowed e now s
      in if shouldAdvanceFrame then advance_frame e percent_time r s1 else s1)"

text \<open>The chain \<^verbatim>\<open>if (isiMode === 'hold') ... else if (isiMode === 'blank' && ...) ...\<close>.\<close>

definition display_tick :: "Env \<Rightarrow> real \<Rightarrow> real \<Rightarrow> real \<Rightarrow> State \<Rightarrow> State" where
  "display_tick e now time_elapsed timeInCurrentFrame s =
     (if isiMode e = ''hold'' then show_frame e time_elapsed timeInCurrentFrame s
      else if isiMode e = ''blank'' \<and> \<not> hasShownVisibleTickForThisFrame s then
        (show_frame e time_elapsed timeInCurrentFrame s)
          \<lparr> hasShownVisibleTickForThisFrame := True, blankFrameStartTime := now \<rparr>
      else if isiMode e = ''blank'' \<and> hasShownVisibleTickForThisFrame s then
        s\<lparr> csv_frameData :=
             csv_frameData s @ [blank_row e time_elapsed timeInCurrentFrame] \<rparr>
      else s)"

text \<open>The first statement of the handler: \<^verbatim>\<open>if (lastDisplayedFrameIndex === -1) { ... }\<close>.\<close>

definition first_frame :: "real \<Rightarrow> State \<Rightarrow> State" where
  "first_frame now s =
     (if lastDisplayedFrameIndex s = - 1
      then s\<lparr> lastDisplayedFrameIndex := 0, currentDisplayFrameStartTime := now \<rparr>
      else s)"

text \<open>
  The handler. \<^verbatim>\<open>percent_time\<close> is used only in the branch
  \<^verbatim>\<open>time_elapsed < trial_duration\<close>; with a clock that does not run backwards
  (\<^verbatim>\<open>time_elapsed \<ge> 0\<close>) the divisor \<^verbatim>\<open>trial_duration\<close> is positive there.
\<close>

definition move_disc :: "Env \<Rightarrow> Tick \<Rightarrow> State \<Rightarrow> State" where
  "move_disc e t s0 =
     (let now = current_time t;
          time_elapsed = (now - start_time e) / 1000;
          s = first_frame now s0;
          percent_time = time_elapsed / trial_duration s;
          timeInCurrentFrame = (now - currentDisplayFrameStartTime s) / 1000
      in if (case trial_trial_duration e of
               None \<Rightarrow> False
             | Some d \<Rightarrow> d \<noteq> 0 \<and> time_elapsed \<ge> d)
         then s\<lparr> ended := True \<rparr>
         else if time_elapsed < trial_duration s then
           display_tick e now time_elapsed timeInCurrentFrame
             (advance_tick e now percent_time (direction_draw t) s)
         else s\<lparr> ended := True \<rparr>)"

text \<open>
  The tick loop: \<^verbatim>\<open>requestAnimationFrame\<close> calls the handler again until it has scheduled
  \<^verbatim>\<open>end_trial\<close>.
\<close>

fun run :: "Env \<Rightarrow> Tick list \<Rightarrow> State \<Rightarrow> State" where
  "run e [] s = s"
| "run e (t # ts) s = (let s' = move_disc e t s in if ended s' then s' else run e ts s')"

text \<open>The state in which the setup calls \<^verbatim>\<open>move_disc\<close> for the first time.\<close>

definition initial_state :: "real \<Rightarrow> SizeState \<Rightarrow> State" where
  "initial_state duration size0 =
     \<lparr> lastDisplayedFrameIndex = - 1, currentDisplayFrameStartTime = 0,
       hasShownVisibleTickForThisFrame = False, blankFrameStartTime = 0,
       trial_duration = duration, sizeState = size0, csv_frameData = [], drawn = [],
       shown_frameNum = 0, ended = False, sizeUpdates = 0 \<rparr>"

subsection \<open>Observations on a run\<close>

text \<open>
  The frame index the handler holds when a tick starts, after its first statement
  (\<^verbatim>\<open>if (lastDisplayedFrameIndex === -1) lastDisplayedFrameIndex = 0\<close>).
\<close>

definition shown_index :: "State \<Rightarrow> real" where
  "shown_index s = (if lastDisplayedFrameIndex s = - 1 then 0 else lastDisplayedFrameIndex s)"

text \<open>The number of executed ticks of a run in which the displayed frame index changes.\<close>

fun index_changes :: "Env \<Rightarrow> Tick list \<Rightarrow> State \<Rightarrow> nat" where
  "index_changes e [] s = 0"
| "index_changes e (t # ts) s =
     (let s' = move_disc e t s in
        (if lastDisplayedFrameIndex s' \<noteq> shown_index s then 1 else 0)
        + (if ended s' then 0 else index_changes e ts s'))"

text \<open>
  The centre of the bounding box of the positions drawn in one tick, along one axis,
  computed as \<^verbatim>\<open>calculateClothCenter\<close> computes a centre.
\<close>

definition drawn_center :: "real option list \<Rightarrow> real option" where
  "drawn_center ps =
     (case those ps of
        None \<Rightarrow> None
      | Some vs \<Rightarrow>
          (case (Math_min vs, Math_max vs) of
             (Some lo, Some hi) \<Rightarrow> Some (lo + (hi - lo) / 2)
           | _ \<Rightarrow> None))"

text \<open>
  Dot \<open>d\<close> is at least as close as dot \<open>d'\<close>: nearer, or as near and not later in the
  input order.
\<close>

definition closer :: "(nat \<Rightarrow> real) \<Rightarrow> nat \<Rightarrow> nat \<Rightarrow> bool" where
  "closer f d d' = (f d < f d' \<or> (f d = f d' \<and> d \<le> d'))"

text \<open>
  The \<open>k\<close>-th selected dot is a dot of the cloud that was not selected before and is at
  least as close to the anchor of the \<open>k\<close>-th cell as every other dot not selected before.
\<close>

definition nearest_unselected ::
  "real list list \<Rightarrow> real list list \<Rightarrow> ClothBox \<Rightarrow> Grid \<Rightarrow> (nat \<Rightarrow> real) \<Rightarrow>
   nat list \<Rightarrow> nat \<Rightarrow> bool" where
  "nearest_unselected dot_posX dot_posY box g rnd sel k =
     (let (offsetX, offsetY) = anchor box g rnd k; d = sel ! k
      in d < length dot_posX \<and> d \<notin> set (take k sel)
         \<and> (\<forall>d' < length dot_posX. d' \<notin> set (take k sel) \<longrightarrow>
               closer (dot_distance dot_posX dot_posY offsetX offsetY) d d'))"

text \<open>
  The state of the grid loop after its first \<open>k\<close> cells: the three arrays and the counter
  describe the same selection, no dot is selected twice, cell after cell received a dot
  until the cloud was used up, and each selected dot was the nearest one left.
\<close>

definition sampled ::
  "real list list \<Rightarrow> real list list \<Rightarrow> ClothBox \<Rightarrow> Grid \<Rightarrow> (nat \<Rightarrow> real) \<Rightarrow>
   nat \<Rightarrow> Selection \<Rightarrow> bool" where
  "sampled dot_posX dot_posY box g rnd k s =
     (totalSelected s = length (selectedDotIDs s)
      \<and> selected_dot_posX s = map ((!) dot_posX) (selectedDotIDs s)
      \<and> selected_dot_posY s = map ((!) dot_posY) (selectedDotIDs s)
      \<and> distinct (selectedDotIDs s)
      \<and> set (selectedDotIDs s) \<subseteq> {..<length dot_posX}
      \<and> length (selectedDotIDs s) = min k (length dot_posX)
      \<and> (\<forall>j < length (selectedDotIDs s).
            nearest_unselected dot_posX dot_posY box g rnd (selectedDotIDs s) j))"

text \<open>Two states that differ at most in the variables of the size controller.\<close>

definition same_display :: "State \<Rightarrow> State \<Rightarrow> bool" where
  "same_display s s' = (s' = s\<lparr> sizeState := sizeState s' \<rparr>)"

text \<open>The positions a static display draws along one axis.\<close>

definition static_positions :: "Env \<Rightarrow> real list list \<Rightarrow> real option list" where
  "static_positions e trajs = map (\<lambda>traj. at_index traj (of_int (parseInt (random_frame e)))) trajs"

subsection \<open>A concrete trial\<close>

text \<open>
  Two dots over four frames, centred on a 1000 by 800 window, a trial of two seconds in
  blank mode without gap, and a size controller half-way between its bounds.
\<close>

definition demo_env :: Env where
  "demo_env =
     \<lparr> reversePlayback = False, frameDur = 100, isi = 0, isiSlows = True,
       isiMode = ''blank'', sizeVariation = True, static = False,
       trial_trial_duration = None, random_frame = 2, frame_num = 4, start_time = 0,
       clothCenterX = 500, clothCenterY = 400,
       shown_posX = [[490, 500, 510, 520], [510, 520, 530, 540]],
       shown_posY = [[390, 390, 390, 390], [410, 410, 410, 410]],
       sizeBounds = \<lparr> logMin = - 1, logMax = 1, logStepBase = 1 / 2 \<rparr> \<rparr>"

definition demo_size :: SizeState where
  "demo_size = \<lparr> logScale = 0, currentSizeFactor = 1, directionSign = 1 \<rparr>"

definition demo_ticks :: "Tick list" where
  "demo_ticks =
     [\<lparr> current_time = 0, direction_draw = 1 / 4 \<rparr>,
      \<lparr> current_time = 600, direction_draw = 1 / 4 \<rparr>,
      \<lparr> current_time = 700, direction_draw = 3 / 4 \<rparr>]"

text \<open>
  A cloud of three dots on one line, sampled with a single grid cell and no jitter, and
  its bounding box at the reference frame.
\<close>

definition cloud_X :: "real list list" where
  "cloud_X = [[0], [10], [4]]"

definition cloud_Y :: "real list list" where
  "cloud_Y = [[0], [0], [0]]"

definition cloud_box :: ClothBox where
  "cloud_box = \<lparr> minX = 0, minY = 0, maxX = 10, maxY = 0, clothWidth = 10, clothHeight = 0,
                 centerX = 5, centerY = 0 \<rparr>"

definition one_cell :: Grid where
  "one_cell = \<lparr> binX_num = 1, binY_num = 1, offsetFactor = 0 \<rparr>"

text \<open>
  Four dots on the corners of a square, sampled with a grid of two by two cells and no
  jitter.
\<close>

definition four_X :: "real list list" where
  "four_X = [[3], [1], [3], [1]]"

definition four_Y :: "real list list" where
  "four_Y = [[3], [3], [1], [1]]"

definition four_box :: ClothBox where
  "four_box = \<lparr> minX = 1, minY = 1, maxX = 3, maxY = 3, clothWidth = 2, clothHeight = 2,
                centerX = 2, centerY = 2 \<rparr>"

definition two_by_two :: Grid where
  "two_by_two = \<lparr> binX_num = 2, binY_num = 2, offsetFactor = 0 \<rparr>"

section \<open>Properties\<close>

subsection \<open>SizeController bounds\<close>

text \<open>
  What the reflection without a clamp does guarantee: a step of at most half the range
  keeps the log-scale inside the range, for every sequence of direction draws.
\<close>

lemma updateSizeFactor_in_bounds:
  assumes "2 * \<bar>logStepBase b\<bar> \<le> logMax b - logMin b"
    and "logMin b \<le> logScale s" and "logScale s \<le> logMax b"
  shows "logMin b \<le> logScale (updateSizeFactor b r s)
         \<and> logScale (updateSizeFactor b r s) \<le> logMax b"
  using assms by (auto simp add: updateSizeFactor_def Let_def)

lemma size_steps_in_bounds:
  assumes "2 * \<bar>logStepBase b\<bar> \<le> logMax b - logMin b"
    and "logMin b \<le> logScale s" and "logScale s \<le> logMax b"
  shows "logMin b \<le> logScale (size_steps b rs s) \<and> logScale (size_steps b rs s) \<le> logMax b"
  using assms
proof (induction rs arbitrary: s)
  case Nil
  then show ?case by simp
next
  case (Cons r rs)
  from updateSizeFactor_in_bounds [OF Cons.prems, of r] Cons.IH [OF Cons.prems(1)]
  show ?case by simp
qed

lemma updateSizeFactor_factor:
  "currentSizeFactor (updateSizeFactor b r s) = exp (logScale (updateSizeFactor b r s))"
  by (simp add: updateSizeFactor_def Let_def)

text \<open>
  C1. The claim: with \<open>logStep \<le> logMax - logMin\<close>, every step from a log-scale inside
  \<open>[logMin, logMax]\<close> stays inside it, so the linear scale stays inside
  \<open>[minScale, maxScale]\<close>. The code at \<open>logMin = 0\<close>, \<open>logMax = 3\<close>, \<open>logStep = 2\<close>,
  \<open>logScale = 3/2\<close>: the step satisfies the bound of the claim, and either draw of the
  direction leaves the range (a draw below 0.5 tries \<open>7/2\<close>, flips and lands on \<open>-1/2\<close>;
  a draw above tries \<open>-1/2\<close>, flips and lands on \<open>7/2\<close>), and the linear scale with it.
\<close>

theorem updateSizeFactor_escapes_bounds:
  "logStepBase \<lparr> logMin = 0, logMax = 3, logStepBase = 2 \<rparr>
     \<le> logMax \<lparr> logMin = 0, logMax = 3, logStepBase = 2 \<rparr>
        - logMin \<lparr> logMin = 0, logMax = 3, logStepBase = 2 \<rparr>
   \<and> logScale (updateSizeFactor \<lparr> logMin = 0, logMax = 3, logStepBase = 2 \<rparr> (1 / 4)
        \<lparr> logScale = 3 / 2, currentSizeFactor = exp (3 / 2), directionSign = 1 \<rparr>) = - 1 / 2
   \<and> logScale (updateSizeFactor \<lparr> logMin = 0, logMax = 3, logStepBase = 2 \<rparr> (3 / 4)
        \<lparr> logScale = 3 / 2, currentSizeFactor = exp (3 / 2), directionSign = 1 \<rparr>) = 7 / 2
   \<and> currentSizeFactor (updateSizeFactor \<lparr> logMin = 0, logMax = 3, logStepBase = 2 \<rparr> (1 / 4)
        \<lparr> logScale = 3 / 2, currentSizeFactor = exp (3 / 2), directionSign = 1 \<rparr>) < exp 0
   \<and> exp 3 < currentSizeFactor (updateSizeFactor \<lparr> logMin = 0, logMax = 3, logStepBase = 2 \<rparr> (3 / 4)
        \<lparr> logScale = 3 / 2, currentSizeFactor = exp (3 / 2), directionSign = 1 \<rparr>)"
  by (simp add: updateSizeFactor_def Let_def)

subsection \<open>The handler, phase by phase\<close>

lemma first_frame_keeps [simp]:
  "lastDisplayedFrameIndex (first_frame now s) = shown_index s"
  "sizeState (first_frame now s) = sizeState s"
  "sizeUpdates (first_frame now s) = sizeUpdates s"
  "csv_frameData (first_frame now s) = csv_frameData s"
  "drawn (first_frame now s) = drawn s"
  "trial_duration (first_frame now s) = trial_duration s"
  by (simp_all add: first_frame_def shown_index_def)

lemma advance_allowed_keeps [simp]:
  "lastDisplayedFrameIndex (snd (advance_allowed e now s)) = lastDisplayedFrameIndex s"
  "sizeState (snd (advance_allowed e now s)) = sizeState s"
  "sizeUpdates (snd (advance_allowed e now s)) = sizeUpdates s"
  "csv_frameData (snd (advance_allowed e now s)) = csv_frameData s"
  "drawn (snd (advance_allowed e now s)) = drawn s"
  "trial_duration (snd (advance_allowed e now s)) = trial_duration s"
  by (simp_all add: advance_allowed_def Let_def)

lemma advance_frame_keeps [simp]:
  "csv_frameData (advance_frame e p r s) = csv_frameData s"
  "drawn (advance_frame e p r s) = drawn s"
  "trial_duration (advance_frame e p r s) = trial_duration s"
  "hasShownVisibleTickForThisFrame (advance_frame e p r s) = False"
  by (simp_all add: advance_frame_def Let_def)

lemma advance_tick_keeps [simp]:
  "csv_frameData (advance_tick e now p r s) = csv_frameData s"
  "drawn (advance_tick e now p r s) = drawn s"
  "trial_duration (advance_tick e now p r s) = trial_duration s"
  by (simp_all add: advance_tick_def case_prod_beta)

lemma show_frame_keeps [simp]:
  "lastDisplayedFrameIndex (show_frame e el tf s) = lastDisplayedFrameIndex s"
  "sizeState (show_frame e el tf s) = sizeState s"
  "sizeUpdates (show_frame e el tf s) = sizeUpdates s"
  "trial_duration (show_frame e el tf s) = trial_duration s"
  by (simp_all add: show_frame_def Let_def)

lemma display_tick_keeps [simp]:
  "lastDisplayedFrameIndex (display_tick e now el tf s) = lastDisplayedFrameIndex s"
  "sizeState (display_tick e now el tf s) = sizeState s"
  "sizeUpdates (display_tick e now el tf s) = sizeUpdates s"
  "trial_duration (display_tick e now el tf s) = trial_duration s"
  by (simp_all add: display_tick_def)

lemma move_disc_trial_duration: "trial_duration (move_disc e t s) = trial_duration s"
  by (simp add: move_disc_def Let_def split: option.splits)

lemma run_trial_duration: "trial_duration (run e ts s) = trial_duration s"
  by (induction ts arbitrary: s) (simp_all add: Let_def move_disc_trial_duration)

text \<open>
  C7. With a positive gap and the ISI-extends-duration flag set, the setup adds
  \<open>(frame_num - 1) * isi / 1000\<close> seconds to the trial duration; with the flag unset it
  leaves the duration as it is; and no tick of the handler changes the duration again.
\<close>

theorem isi_adjust_duration:
  "(0 < isi_ms \<and> isiSlows_flag \<longrightarrow>
      isi_adjust isi_ms isiSlows_flag frame_count duration
        = duration + (frame_count - 1) * isi_ms / 1000)
   \<and> (\<not> isiSlows_flag \<longrightarrow> isi_adjust isi_ms isiSlows_flag frame_count duration = duration)
   \<and> trial_duration (run e ts s) = trial_duration s"
  by (simp add: isi_adjust_def Let_def run_trial_duration)

theorem isi_adjust_duration_witness:
  "(0::real) < 16
   \<and> isi_adjust 16 True 101 5 = 5 + (101 - 1) * 16 / 1000
   \<and> isi_adjust 16 False 101 5 = 5"
  using isi_adjust_duration [of 16 True 101 5] isi_adjust_duration [of 16 False 101 5]
  by simp

lemma advance_tick_size:
  assumes "sizeVariation e"
  shows "(lastDisplayedFrameIndex (advance_tick e now p r s) = lastDisplayedFrameIndex s \<longrightarrow>
            sizeState (advance_tick e now p r s) = sizeState s
            \<and> sizeUpdates (advance_tick e now p r s) = sizeUpdates s)
         \<and> (lastDisplayedFrameIndex (advance_tick e now p r s) \<noteq> lastDisplayedFrameIndex s \<longrightarrow>
            sizeState (advance_tick e now p r s) = updateSizeFactor (sizeBounds e) r (sizeState s)
            \<and> sizeUpdates (advance_tick e now p r s) = sizeUpdates s + 1)"
  using assms by (simp add: advance_tick_def case_prod_beta advance_frame_def Let_def)

lemma move_disc_size_step:
  assumes "sizeVariation e"
  shows "(lastDisplayedFrameIndex (move_disc e t s) = shown_index s \<longrightarrow>
            sizeState (move_disc e t s) = sizeState s
            \<and> sizeUpdates (move_disc e t s) = sizeUpdates s)
         \<and> (lastDisplayedFrameIndex (move_disc e t s) \<noteq> shown_index s \<longrightarrow>
            sizeState (move_disc e t s)
              = updateSizeFactor (sizeBounds e) (direction_draw t) (sizeState s)
            \<and> sizeUpdates (move_disc e t s) = sizeUpdates s + 1)"
  using advance_tick_size [OF assms, of _ _ _ "first_frame (current_time t) s"]
  by (simp add: move_disc_def Let_def split: option.splits)

lemma run_size_updates:
  assumes "sizeVariation e"
  shows "sizeUpdates (run e ts s) = sizeUpdates s + index_changes e ts s"
proof (induction ts arbitrary: s)
  case Nil
  then show ?case by simp
next
  case (Cons t ts)
  show ?case
    using move_disc_size_step [OF assms, of t s] Cons.IH [of "move_disc e t s"]
    by (simp add: Let_def)
qed

lemmas tick_defs = move_disc_def first_frame_def advance_tick_def display_tick_def
  advance_allowed_def advance_frame_def show_frame_def blank_row_def Let_def

lemmas demo_defs = demo_env_def demo_ticks_def demo_size_def initial_state_def

subsection \<open>Blank mode without a gap\<close>

lemma advance_tick_zero_gap:
  "isiMode e = ''blank'' \<Longrightarrow> isi e = 0 \<Longrightarrow>
   \<not> hasShownVisibleTickForThisFrame (advance_tick e now p r s)"
  by (simp add: advance_tick_def advance_allowed_def Let_def)

lemma display_tick_visible:
  "isiMode e = ''blank'' \<Longrightarrow> \<not> hasShownVisibleTickForThisFrame s \<Longrightarrow>
   csv_frameData (display_tick e now el tf s)
     = csv_frameData s @ [last (csv_frameData (display_tick e now el tf s))]
   \<and> csv_displayFrameNumber (last (csv_frameData (display_tick e now el tf s)))
     = Frame (lastDisplayedFrameIndex s)"
  by (simp add: display_tick_def show_frame_def Let_def)

lemma move_disc_cases:
  "move_disc e t s = (first_frame (current_time t) s)\<lparr> ended := True \<rparr>
   \<or> (\<exists>p el tf. move_disc e t s
         = display_tick e (current_time t) el tf
             (advance_tick e (current_time t) p (direction_draw t)
                (first_frame (current_time t) s)))"
  unfolding move_disc_def Let_def by metis

lemma move_disc_blank_zero_gap:
  assumes "isiMode e = ''blank''" and "isi e = 0"
  shows "csv_frameData (move_disc e t s) = csv_frameData s
         \<or> (\<exists>row. csv_frameData (move_disc e t s) = csv_frameData s @ [row]
               \<and> csv_displayFrameNumber row = Frame (lastDisplayedFrameIndex (move_disc e t s)))"
  using move_disc_cases [of e t s]
proof (elim disjE exE)
  assume "move_disc e t s = (first_frame (current_time t) s)\<lparr> ended := True \<rparr>"
  then show ?thesis by simp
next
  fix p el tf
  define a where "a = advance_tick e (current_time t) p (direction_draw t)
      (first_frame (current_time t) s)"
  assume "move_disc e t s = display_tick e (current_time t) el tf
      (advance_tick e (current_time t) p (direction_draw t) (first_frame (current_time t) s))"
  then have m: "move_disc e t s = display_tick e (current_time t) el tf a"
    by (simp add: a_def)
  have vis: "\<not> hasShownVisibleTickForThisFrame a"
    unfolding a_def by (rule advance_tick_zero_gap [OF assms])
  have csv: "csv_frameData a = csv_frameData s" by (simp add: a_def)
  from display_tick_visible [OF assms(1) vis, of "current_time t" el tf]
  show ?thesis unfolding m csv by auto
qed

text \<open>
  C8. In blank mode with a gap of zero, a run that starts without blank rows never
  records one: every tick that pushes a row pushes a visible row.
\<close>

theorem blank_gap_zero_no_blank_rows:
  assumes "isiMode e = ''blank''" and "isi e = 0"
    and "\<forall>row \<in> set (csv_frameData s). csv_displayFrameNumber row \<noteq> Blank"
  shows "\<forall>row \<in> set (csv_frameData (run e ts s)). csv_displayFrameNumber row \<noteq> Blank"
  using assms(3)
proof (induction ts arbitrary: s)
  case Nil
  then show ?case by simp
next
  case (Cons t ts)
  have step: "\<forall>row \<in> set (csv_frameData (move_disc e t s)). csv_displayFrameNumber row \<noteq> Blank"
    using move_disc_blank_zero_gap [OF assms(1,2), of t s] Cons.prems by auto
  show ?case
    using step Cons.IH [OF step] by (simp add: Let_def)
qed

theorem blank_gap_zero_no_blank_rows_witness:
  "isiMode demo_env = ''blank'' \<and> isi demo_env = 0
   \<and> csv_frameData (initial_state 2 demo_size) = []
   \<and> map csv_displayFrameNumber
        (csv_frameData (run demo_env demo_ticks (initial_state 2 demo_size)))
      = [Frame 0, Frame 1, Frame 1]"
  using blank_gap_zero_no_blank_rows [of demo_env "initial_state 2 demo_size" demo_ticks]
  by (simp add: demo_defs tick_defs frame_index_def parseInt_def)

subsection \<open>Static display\<close>

lemma get_pos_static:
  "static e \<Longrightarrow> get_pos e c scale idx = (\<lambda>traj. at_index traj (of_int (parseInt (random_frame e))))"
  by (rule ext) (simp add: get_pos_def)

lemma inFrame_static:
  "static e \<Longrightarrow> inFrame_x e scale idx = static_positions e (shown_posX e)"
  "static e \<Longrightarrow> inFrame_y e scale idx = static_positions e (shown_posY e)"
  by (simp_all add: inFrame_x_def inFrame_y_def static_positions_def get_pos_static)

lemma same_display_fields:
  assumes "same_display s s'"
  shows "lastDisplayedFrameIndex s' = lastDisplayedFrameIndex s"
    and "currentDisplayFrameStartTime s' = currentDisplayFrameStartTime s"
    and "trial_duration s' = trial_duration s"
    and "csv_frameData s' = csv_frameData s"
    and "drawn s' = drawn s"
    and "ended s' = ended s"
proof -
  from assms have eq: "s' = s\<lparr> sizeState := sizeState s' \<rparr>" by (simp add: same_display_def)
  show "lastDisplayedFrameIndex s' = lastDisplayedFrameIndex s" by (subst eq) simp
  show "currentDisplayFrameStartTime s' = currentDisplayFrameStartTime s" by (subst eq) simp
  show "trial_duration s' = trial_duration s" by (subst eq) simp
  show "csv_frameData s' = csv_frameData s" by (subst eq) simp
  show "drawn s' = drawn s" by (subst eq) simp
  show "ended s' = ended s" by (subst eq) simp
qed

lemma same_displayI: "s' = s\<lparr> sizeState := z \<rparr> \<Longrightarrow> same_display s s'"
  by (simp add: same_display_def)

lemma same_displayE:
  assumes "same_display s s'"
  obtains z where "s' = s\<lparr> sizeState := z \<rparr>"
  using assms unfolding same_display_def by blast

lemma same_display_ended: "same_display s s' \<Longrightarrow> same_display (s\<lparr> ended := b \<rparr>) (s'\<lparr> ended := b \<rparr>)"
  by (erule same_displayE) (simp add: same_display_def)

lemma same_display_first_frame:
  "same_display s s' \<Longrightarrow> same_display (first_frame now s) (first_frame now s')"
  by (erule same_displayE) (simp add: same_display_def first_frame_def)

lemma same_display_advance_tick:
  "same_display s s' \<Longrightarrow> same_display (advance_tick e now p r s) (advance_tick e now p r s')"
  by (erule same_displayE)
     (simp add: same_display_def advance_tick_def advance_allowed_def advance_frame_def Let_def)

lemma show_frame_static_size:
  "static e \<Longrightarrow>
   show_frame e el tf (s\<lparr> sizeState := z \<rparr>) = (show_frame e el tf s)\<lparr> sizeState := z \<rparr>"
  by (simp add: show_frame_def Let_def inFrame_static)

lemma same_display_display_tick:
  "static e \<Longrightarrow> same_display s s' \<Longrightarrow>
   same_display (display_tick e now el tf s) (display_tick e now el tf s')"
  by (erule same_displayE)
     (simp add: same_display_def display_tick_def show_frame_static_size)

lemma same_display_move_disc:
  assumes "static e" and "same_display s s'"
  shows "same_display (move_disc e t s) (move_disc e t s')"
proof -
  note ff = same_display_first_frame [OF assms(2), of "current_time t"]
  note f = same_display_fields [OF ff]
  let ?stop = "case trial_trial_duration e of None \<Rightarrow> False
     | Some d \<Rightarrow> d \<noteq> 0 \<and> d \<le> (current_time t - start_time e) / 1000"
  let ?go = "(current_time t - start_time e) / 1000 < trial_duration (first_frame (current_time t) s)"
  show ?thesis
  proof (cases "?stop \<or> \<not> ?go")
    case True
    then have "move_disc e t s = (first_frame (current_time t) s)\<lparr> ended := True \<rparr>"
      and "move_disc e t s' = (first_frame (current_time t) s')\<lparr> ended := True \<rparr>"
      unfolding move_disc_def Let_def f by auto
    then show ?thesis using same_display_ended [OF ff] by simp
  next
    case False
    then have "move_disc e t s = display_tick e (current_time t)
          ((current_time t - start_time e) / 1000)
          ((current_time t - currentDisplayFrameStartTime (first_frame (current_time t) s)) / 1000)
          (advance_tick e (current_time t)
             ((current_time t - start_time e) / 1000 / trial_duration (first_frame (current_time t) s))
             (direction_draw t) (first_frame (current_time t) s))"
      and "move_disc e t s' = display_tick e (current_time t)
          ((current_time t - start_time e) / 1000)
          ((current_time t - currentDisplayFrameStartTime (first_frame (current_time t) s)) / 1000)
          (advance_tick e (current_time t)
             ((current_time t - start_time e) / 1000 / trial_duration (first_frame (current_time t) s))
             (direction_draw t) (first_frame (current_time t) s'))"
      unfolding move_disc_def Let_def f by auto
    then show ?thesis
      using same_display_display_tick [OF assms(1) same_display_advance_tick [OF ff]] by simp
  qed
qed

lemma same_display_run:
  assumes "static e"
  shows "same_display s s' \<Longrightarrow> same_display (run e ts s) (run e ts s')"
proof (induction ts arbitrary: s s')
  case Nil
  then show ?case by simp
next
  case (Cons t ts)
  note m = same_display_move_disc [OF assms Cons.prems, of t]
  show ?case
    using m Cons.IH [OF m] same_display_fields(6) [OF m] by (simp add: Let_def)
qed

lemma display_tick_drawn_static:
  "static e \<Longrightarrow>
   drawn (display_tick e now el tf s) = drawn s
   \<or> drawn (display_tick e now el tf s)
       = drawn s @ [(static_positions e (shown_posX e), static_positions e (shown_posY e))]"
  by (simp add: display_tick_def show_frame_def Let_def inFrame_static)

lemma move_disc_drawn_static:
  assumes "static e"
  shows "drawn (move_disc e t s) = drawn s
   \<or> drawn (move_disc e t s)
       = drawn s @ [(static_positions e (shown_posX e), static_positions e (shown_posY e))]"
  using move_disc_cases [of e t s]
proof (elim disjE exE)
  assume "move_disc e t s = (first_frame (current_time t) s)\<lparr> ended := True \<rparr>"
  then show ?thesis by simp
next
  fix p el tf
  assume m: "move_disc e t s = display_tick e (current_time t) el tf
      (advance_tick e (current_time t) p (direction_draw t) (first_frame (current_time t) s))"
  from display_tick_drawn_static [OF assms, of "current_time t" el tf
      "advance_tick e (current_time t) p (direction_draw t) (first_frame (current_time t) s)"]
  show ?thesis unfolding m by simp
qed

lemma run_drawn_static:
  assumes "static e"
  shows "set (drawn (run e ts s))
         \<subseteq> set (drawn s) \<union> {(static_positions e (shown_posX e), static_positions e (shown_posY e))}"
proof (induction ts arbitrary: s)
  case Nil
  then show ?case by auto
next
  case (Cons t ts)
  from move_disc_drawn_static [OF assms, of t s]
  have step: "set (drawn (move_disc e t s))
      \<subseteq> set (drawn s) \<union> {(static_positions e (shown_posX e), static_positions e (shown_posY e))}"
    by auto
  show ?case
    using step Cons.IH [of "move_disc e t s"] by (auto simp add: Let_def)
qed

text \<open>
  C10. With the static flag set, the positions of every tick are the stored positions at
  \<^verbatim>\<open>parseInt(random_frame)\<close>, whatever the scale and the frame index; every entry a run
  draws is that list of positions; and two runs from states that differ in the size
  controller only record the same rows and draw the same positions.
\<close>

theorem static_display_ignores_size:
  assumes "static e"
  shows "inFrame_x e scale idx = static_positions e (shown_posX e)
       \<and> inFrame_y e scale idx = static_positions e (shown_posY e)
       \<and> set (drawn (run e ts s))
           \<subseteq> set (drawn s) \<union> {(static_positions e (shown_posX e), static_positions e (shown_posY e))}
       \<and> csv_frameData (run e ts (s\<lparr> sizeState := z \<rparr>)) = csv_frameData (run e ts s)
       \<and> drawn (run e ts (s\<lparr> sizeState := z \<rparr>)) = drawn (run e ts s)"
proof -
  have "same_display s (s\<lparr> sizeState := z \<rparr>)" by (rule same_displayI) simp
  from same_display_fields(4,5) [OF same_display_run [OF assms this, of ts]]
    run_drawn_static [OF assms, of ts s] inFrame_static [OF assms, of scale idx]
  show ?thesis by blast
qed

theorem static_display_ignores_size_witness:
  "static (demo_env\<lparr> static := True \<rparr>)
   \<and> inFrame_x (demo_env\<lparr> static := True \<rparr>) 7 1 = [Some 510, Some 530]
   \<and> inFrame_y (demo_env\<lparr> static := True \<rparr>) 7 1 = [Some 390, Some 410]"
  using static_display_ignores_size [of "demo_env\<lparr> static := True \<rparr>" 7 1]
  by (simp add: demo_env_def static_positions_def at_index_def parseInt_def)

text \<open>
  C3. With size variation enabled, a run calls \<^verbatim>\<open>updateSizeFactor\<close> as many times as
  it has ticks in which the displayed frame index changes. In a tick that keeps the index,
  the size state is not written (the scale is only read); in a tick that changes it, the
  size state is the result of exactly one step.
\<close>

theorem size_step_once_per_frame_change:
  assumes "sizeVariation e"
  shows "sizeUpdates (run e ts s) = sizeUpdates s + index_changes e ts s
       \<and> (lastDisplayedFrameIndex (move_disc e t s) = shown_index s \<longrightarrow>
            sizeState (move_disc e t s) = sizeState s
            \<and> sizeUpdates (move_disc e t s) = sizeUpdates s)
       \<and> (lastDisplayedFrameIndex (move_disc e t s) \<noteq> shown_index s \<longrightarrow>
            sizeState (move_disc e t s)
              = updateSizeFactor (sizeBounds e) (direction_draw t) (sizeState s)
            \<and> sizeUpdates (move_disc e t s) = sizeUpdates s + 1)"
  using run_size_updates [OF assms] move_disc_size_step [OF assms] by simp

theorem size_step_once_per_frame_change_witness:
  "sizeVariation demo_env
   \<and> sizeUpdates (run demo_env demo_ticks (initial_state 2 demo_size)) = 1
   \<and> index_changes demo_env demo_ticks (initial_state 2 demo_size) = 1
   \<and> lastDisplayedFrameIndex (move_disc demo_env (demo_ticks ! 0) (initial_state 2 demo_size))
       = shown_index (initial_state 2 demo_size)
   \<and> sizeState (move_disc demo_env (demo_ticks ! 0) (initial_state 2 demo_size)) = demo_size
   \<and> lastDisplayedFrameIndex (move_disc demo_env (demo_ticks ! 1)
         (move_disc demo_env (demo_ticks ! 0) (initial_state 2 demo_size)))
       \<noteq> shown_index (move_disc demo_env (demo_ticks ! 0) (initial_state 2 demo_size))
   \<and> logScale (sizeState (move_disc demo_env (demo_ticks ! 1)
         (move_disc demo_env (demo_ticks ! 0) (initial_state 2 demo_size)))) = 1 / 2"
  using size_step_once_per_frame_change [of demo_env demo_ticks "initial_state 2 demo_size"
      "demo_ticks ! 0"]
    size_step_once_per_frame_change [of demo_env demo_ticks
      "move_disc demo_env (demo_ticks ! 0) (initial_state 2 demo_size)" "demo_ticks ! 1"]
  by (simp add: demo_defs tick_defs frame_index_def parseInt_def shown_index_def
      updateSizeFactor_def)

text \<open>
  C2. The claim: the scale column of a visible row holds the current linear scale, and
  holds 1 when size variation is disabled. The code pushes \<^verbatim>\<open>currentScalingDirection || 0\<close>:
  the first tick of the concrete trial records 0 with size variation disabled (blank mode)
  and records 0 with size variation enabled (hold mode) while the current scale is 1.
\<close>

theorem csv_scalingFactor_records_zero:
  "map csv_scalingFactor
     (csv_frameData (move_disc (demo_env\<lparr> sizeVariation := False \<rparr>)
        \<lparr> current_time = 0, direction_draw = 1 / 4 \<rparr> (initial_state 2 demo_size))) = [Num 0]
   \<and> map csv_scalingFactor
     (csv_frameData (move_disc (demo_env\<lparr> isiMode := ''hold'' \<rparr>)
        \<lparr> current_time = 0, direction_draw = 1 / 4 \<rparr> (initial_state 2 demo_size))) = [Num 0]
   \<and> getPixelScale (sizeState (move_disc (demo_env\<lparr> isiMode := ''hold'' \<rparr>)
        \<lparr> current_time = 0, direction_draw = 1 / 4 \<rparr> (initial_state 2 demo_size))) = 1"
  by (simp add: demo_defs tick_defs frame_index_def parseInt_def currentScalingDirection_def
      getPixelScale_def)

subsection \<open>Scaling about the cloth centre\<close>

lemma fold_min_mono:
  fixes f :: "real \<Rightarrow> real"
  assumes "mono f"
  shows "fold min (map f r) (f x) = f (fold min r x)"
proof (induction r arbitrary: x)
  case Nil
  then show ?case by simp
next
  case (Cons a r)
  have "min (f a) (f x) = f (min a x)" using assms by (simp add: min_of_mono)
  then show ?case using Cons.IH [of "min a x"] by simp
qed

lemma fold_max_mono:
  fixes f :: "real \<Rightarrow> real"
  assumes "mono f"
  shows "fold max (map f r) (f x) = f (fold max r x)"
proof (induction r arbitrary: x)
  case Nil
  then show ?case by simp
next
  case (Cons a r)
  have "max (f a) (f x) = f (max a x)" using assms by (simp add: max_of_mono)
  then show ?case using Cons.IH [of "max a x"] by simp
qed

lemma Math_min_mono: "mono f \<Longrightarrow> Math_min (map f xs) = map_option f (Math_min xs)"
  by (cases xs) (simp_all add: Math_min_def fold_min_mono)

lemma Math_max_mono: "mono f \<Longrightarrow> Math_max (map f xs) = map_option f (Math_max xs)"
  by (cases xs) (simp_all add: Math_max_def fold_max_mono)

lemma those_map_Some [simp]: "those (map Some xs) = Some xs"
  by (induction xs) simp_all

lemma those_Some_map: "those ps = Some vs \<Longrightarrow> ps = map Some vs"
  by (induction ps arbitrary: vs) (auto split: option.splits)

lemma drawn_center_Some:
  "drawn_center (map Some vs)
   = (case (Math_min vs, Math_max vs) of
        (Some lo, Some hi) \<Rightarrow> Some (lo + (hi - lo) / 2)
      | _ \<Rightarrow> None)"
  by (simp add: drawn_center_def)

lemma mono_scale_about: "0 \<le> scale \<Longrightarrow> mono (\<lambda>orig::real. c + (orig - c) * scale)"
  by (rule monoI) (simp add: mult_right_mono)

lemma mono_shift: "mono (\<lambda>v::real. v + d)"
  by (rule monoI) simp

lemma drawn_center_scaled:
  assumes "0 \<le> scale" and "drawn_center (map Some origs) = Some c"
  shows "drawn_center (map (\<lambda>orig. Some (c0 + (orig - c0) * scale)) origs)
         = Some (c0 + (c - c0) * scale)"
proof -
  let ?f = "\<lambda>orig. c0 + (orig - c0) * scale"
  have m: "map (\<lambda>orig. Some (?f orig)) origs = map Some (map ?f origs)" by simp
  obtain lo hi where lo: "Math_min origs = Some lo" and hi: "Math_max origs = Some hi"
    and c: "c = lo + (hi - lo) / 2"
    using assms(2) by (auto simp add: drawn_center_Some split: option.splits)
  have "drawn_center (map Some (map ?f origs)) = Some (?f lo + (?f hi - ?f lo) / 2)"
    unfolding drawn_center_Some
    by (simp add: Math_min_mono [OF mono_scale_about [OF assms(1)]]
        Math_max_mono [OF mono_scale_about [OF assms(1)]] lo hi)
  moreover have "?f lo + (?f hi - ?f lo) / 2 = c0 + (c - c0) * scale"
    unfolding c by (simp add: algebra_simps)
  ultimately show ?thesis unfolding m by simp
qed

lemma get_pos_animated:
  assumes "\<not> static e" and "those (map (\<lambda>traj. at_index traj idx) trajs) = Some origs"
  shows "map (get_pos e c0 scale idx) trajs = map (\<lambda>orig. Some (c0 + (orig - c0) * scale)) origs"
proof -
  from those_Some_map [OF assms(2)]
  have eq: "map (\<lambda>traj. at_index traj idx) trajs = map Some origs" .
  have "map (get_pos e c0 scale idx) trajs
        = map (\<lambda>p. case p of None \<Rightarrow> None | Some orig \<Rightarrow> Some (c0 + (orig - c0) * scale))
            (map (\<lambda>traj. at_index traj idx) trajs)"
    using assms(1) by (simp add: get_pos_def)
  then show ?thesis unfolding eq by simp
qed

text \<open>
  C9, as amended. A visible tick draws the positions \<open>inFrame_x\<close>, \<open>inFrame_y\<close> of the held
  frame index at the current scale. In an animated (non-static) display, for a frame index
  that is an index of every shown trajectory, each drawn position is
  \<open>clothCenter + (original - clothCenter) * scale\<close>, and for \<open>scale \<ge> 0\<close> the centre of the
  bounding box of the drawn positions is \<open>clothCenter + (c - clothCenter) * scale\<close>, where
  \<open>c\<close> is the centre of the bounding box of the original positions of that frame: it is the
  fixed cloth centre exactly when \<open>c\<close> is the fixed cloth centre or the scale is 0.
\<close>

theorem scaling_about_cloth_center:
  assumes "\<not> static e" and "0 \<le> scale"
    and "those (map (\<lambda>traj. at_index traj idx) (shown_posX e)) = Some origsX"
    and "those (map (\<lambda>traj. at_index traj idx) (shown_posY e)) = Some origsY"
    and "drawn_center (map Some origsX) = Some cx"
    and "drawn_center (map Some origsY) = Some cy"
  shows "inFrame_x e scale idx
           = map (\<lambda>orig. Some (clothCenterX e + (orig - clothCenterX e) * scale)) origsX
       \<and> inFrame_y e scale idx
           = map (\<lambda>orig. Some (clothCenterY e + (orig - clothCenterY e) * scale)) origsY
       \<and> drawn_center (inFrame_x e scale idx)
           = Some (clothCenterX e + (cx - clothCenterX e) * scale)
       \<and> drawn_center (inFrame_y e scale idx)
           = Some (clothCenterY e + (cy - clothCenterY e) * scale)
       \<and> (drawn_center (inFrame_x e scale idx) = Some (clothCenterX e)
            \<longleftrightarrow> cx = clothCenterX e \<or> scale = 0)
       \<and> (drawn_center (inFrame_y e scale idx) = Some (clothCenterY e)
            \<longleftrightarrow> cy = clothCenterY e \<or> scale = 0)
       \<and> drawn (show_frame e time_elapsed timeInCurrentFrame s)
           = drawn s
             @ [(inFrame_x e (if sizeVariation e then getPixelScale (sizeState s) else 1)
                   (lastDisplayedFrameIndex s),
                 inFrame_y e (if sizeVariation e then getPixelScale (sizeState s) else 1)
                   (lastDisplayedFrameIndex s))]"
proof -
  have x: "inFrame_x e scale idx
      = map (\<lambda>orig. Some (clothCenterX e + (orig - clothCenterX e) * scale)) origsX"
    unfolding inFrame_x_def by (rule get_pos_animated [OF assms(1,3)])
  have y: "inFrame_y e scale idx
      = map (\<lambda>orig. Some (clothCenterY e + (orig - clothCenterY e) * scale)) origsY"
    unfolding inFrame_y_def by (rule get_pos_animated [OF assms(1,4)])
  have dx: "drawn_center (inFrame_x e scale idx)
      = Some (clothCenterX e + (cx - clothCenterX e) * scale)"
    unfolding x by (rule drawn_center_scaled [OF assms(2,5)])
  have dy: "drawn_center (inFrame_y e scale idx)
      = Some (clothCenterY e + (cy - clothCenterY e) * scale)"
    unfolding y by (rule drawn_center_scaled [OF assms(2,6)])
  have shown: "drawn (show_frame e time_elapsed timeInCurrentFrame s)
      = drawn s
        @ [(inFrame_x e (if sizeVariation e then getPixelScale (sizeState s) else 1)
              (lastDisplayedFrameIndex s),
            inFrame_y e (if sizeVariation e then getPixelScale (sizeState s) else 1)
              (lastDisplayedFrameIndex s))]"
    by (simp add: show_frame_def Let_def)
  show ?thesis
    using x y shown unfolding dx dy by simp
qed

theorem scaling_about_cloth_center_witness:
  "\<not> static demo_env \<and> (0::real) \<le> 2
   \<and> those (map (\<lambda>traj. at_index traj 1) (shown_posX demo_env)) = Some [500, 520]
   \<and> those (map (\<lambda>traj. at_index traj 1) (shown_posY demo_env)) = Some [390, 410]
   \<and> drawn_center (map Some [500, 520]) = Some 510
   \<and> drawn_center (map Some [390, 410]) = Some 400
   \<and> inFrame_x demo_env 2 1 = [Some 500, Some 540]
   \<and> inFrame_y demo_env 2 1 = [Some 380, Some 420]
   \<and> drawn_center (inFrame_x demo_env 2 1) = Some 520
   \<and> drawn_center (inFrame_y demo_env 2 1) = Some 400
   \<and> drawn_center (inFrame_x demo_env 2 1) \<noteq> Some (clothCenterX demo_env)
   \<and> drawn_center (inFrame_y demo_env 2 1) = Some (clothCenterY demo_env)"
  using scaling_about_cloth_center [of demo_env 2 1 "[500, 520]" "[390, 410]" 510 400]
  by (simp add: demo_env_def at_index_def drawn_center_def Math_min_def Math_max_def)

text \<open>
  C9, as stated, fails: in the concrete trial the fixed cloth centre is 500; at frame 1
  the drawn bounding box is centred on 510 with scale 1 and on 520 with scale 2.
\<close>

theorem scaling_moves_bounding_box_center:
  "\<not> static demo_env
   \<and> clothCenterX demo_env = 500
   \<and> drawn_center (inFrame_x demo_env 1 1) = Some 510
   \<and> drawn_center (inFrame_x demo_env 2 1) = Some 520
   \<and> drawn_center (inFrame_x demo_env 2 1) \<noteq> Some (clothCenterX demo_env)"
  by (simp add: demo_env_def inFrame_x_def get_pos_def at_index_def drawn_center_def
      Math_min_def Math_max_def)

subsection \<open>Recentering\<close>

lemma frame0_shift:
  "concat (map (take 1) (map (map (\<lambda>v::real. v + d)) trajs))
   = map (\<lambda>v. v + d) (concat (map (take 1) trajs))"
  by (induction trajs) (simp_all add: take_map)

lemma calculateClothCenter_shift:
  assumes "calculateClothCenter xs ys = Some box"
  shows "\<exists>box'. calculateClothCenter (map (\<lambda>v. v + dx) xs) (map (\<lambda>v. v + dy) ys) = Some box'
          \<and> centerX box' = centerX box + dx \<and> centerY box' = centerY box + dy"
  using assms
  by (auto simp add: calculateClothCenter_def Math_min_mono [OF mono_shift]
      Math_max_mono [OF mono_shift] split: option.splits)

text \<open>
  C6, as amended. For a selection that has a bounding box at the reference frame, the
  recentering pass translates every position of every selected trajectory by
  (target centre - centre of the whole cloud), so the centre recomputed from the
  reference-frame positions of the translated trajectories is the target centre plus the
  offset of the selection's own reference-frame centre from the centre of the whole cloud
  (exactly so over the reals, hence within floating-point tolerance in the source); on
  each axis it is the target centre exactly when these two centres coincide.
\<close>

theorem recenter_moves_by_cloud_center:
  assumes "calculateClothCenter (concat (map (take 1) posX)) (concat (map (take 1) posY))
           = Some selBox"
  shows "moved_posX (move_to_center True screenCenter clothCenter posX posY)
           = map (map (\<lambda>v. v + (fst screenCenter - centerX clothCenter))) posX
       \<and> moved_posY (move_to_center True screenCenter clothCenter posX posY)
           = map (map (\<lambda>v. v + (snd screenCenter - centerY clothCenter))) posY
       \<and> (\<exists>box'. clothCenter_after (move_to_center True screenCenter clothCenter posX posY)
                 = Some box'
            \<and> centerX box' = fst screenCenter + (centerX selBox - centerX clothCenter)
            \<and> centerY box' = snd screenCenter + (centerY selBox - centerY clothCenter)
            \<and> (centerX box' = fst screenCenter \<longleftrightarrow> centerX selBox = centerX clothCenter)
            \<and> (centerY box' = snd screenCenter \<longleftrightarrow> centerY selBox = centerY clothCenter))"
proof -
  let ?dx = "fst screenCenter - centerX clothCenter"
  let ?dy = "snd screenCenter - centerY clothCenter"
  have mx: "moved_posX (move_to_center True screenCenter clothCenter posX posY)
      = map (map (\<lambda>v. v + ?dx)) posX"
    and my: "moved_posY (move_to_center True screenCenter clothCenter posX posY)
      = map (map (\<lambda>v. v + ?dy)) posY"
    by (simp_all only: move_to_center_def Let_def if_True Centered.select_convs)
  have after: "clothCenter_after (move_to_center True screenCenter clothCenter posX posY)
      = calculateClothCenter (map (\<lambda>v. v + ?dx) (concat (map (take 1) posX)))
          (map (\<lambda>v. v + ?dy) (concat (map (take 1) posY)))"
    by (simp only: move_to_center_def Let_def if_True frame0_shift Centered.select_convs)
  from calculateClothCenter_shift [OF assms, of ?dx ?dy]
  obtain box' where b: "calculateClothCenter (map (\<lambda>v. v + ?dx) (concat (map (take 1) posX)))
          (map (\<lambda>v. v + ?dy) (concat (map (take 1) posY))) = Some box'"
    and cx: "centerX box' = centerX selBox + ?dx" and cy: "centerY box' = centerY selBox + ?dy"
    by blast
  have "clothCenter_after (move_to_center True screenCenter clothCenter posX posY) = Some box'
      \<and> centerX box' = fst screenCenter + (centerX selBox - centerX clothCenter)
      \<and> centerY box' = snd screenCenter + (centerY selBox - centerY clothCenter)
      \<and> (centerX box' = fst screenCenter \<longleftrightarrow> centerX selBox = centerX clothCenter)
      \<and> (centerY box' = snd screenCenter \<longleftrightarrow> centerY selBox = centerY clothCenter)"
    unfolding after b cx cy by auto
  then show ?thesis using mx my by blast
qed

lemma cloud_center: "calculateClothCenter (concat (map (take 1) cloud_X)) (concat (map (take 1) cloud_Y)) = Some cloud_box"
  by (simp add: calculateClothCenter_def cloud_X_def cloud_Y_def cloud_box_def Math_min_def Math_max_def)

lemma cloud_select:
  "grid_select cloud_X cloud_Y cloud_box one_cell (\<lambda>k. 1 / 2)
   = \<lparr> selectedDotIDs = [2], selected_dot_posX = [[4]], selected_dot_posY = [[0]],
       totalSelected = 1 \<rparr>"
  by (simp add: grid_select_def cells_def one_cell_def cell_step_def anchor_def xbin_def ybin_def
      cloud_box_def closestDotIDs_def cloud_X_def cloud_Y_def dot_distance_def dotsPerBin_def
      set_at_def upt_rec [of 0] upt_rec [of 1] upt_rec [of 2] upt_rec [of 3]
      eval_nat_numeral)


text \<open>
  C6, as stated, fails: for the cloud of three dots at x = 0, 10 and 4 the cloud centre is
  5, the single grid cell selects the dot at 4, and after recentering on (500, 400) the
  recomputed centre has x = 499. For an empty selection the recomputed centre is not a
  number.
\<close>

theorem recenter_misses_screen_center:
  "calculateClothCenter (concat (map (take 1) cloud_X)) (concat (map (take 1) cloud_Y))
     = Some cloud_box
   \<and> selected_dot_posX (grid_select cloud_X cloud_Y cloud_box one_cell (\<lambda>k. 1 / 2)) = [[4]]
   \<and> map_option centerX
       (clothCenter_after
          (move_to_center True (500, 400) cloud_box
             (selected_dot_posX (grid_select cloud_X cloud_Y cloud_box one_cell (\<lambda>k. 1 / 2)))
             (selected_dot_posY (grid_select cloud_X cloud_Y cloud_box one_cell (\<lambda>k. 1 / 2)))))
     = Some 499
   \<and> clothCenter_after (move_to_center True (500, 400) cloud_box [] []) = None"
proof -
  have "map_option centerX
       (clothCenter_after (move_to_center True (500, 400) cloud_box [[4]] [[0]])) = Some 499"
    by (simp add: move_to_center_def Let_def cloud_box_def
        calculateClothCenter_def Math_min_def Math_max_def)
  moreover have "clothCenter_after (move_to_center True (500, 400) cloud_box [] []) = None"
    by (simp add: move_to_center_def Let_def calculateClothCenter_def Math_min_def)
  ultimately show ?thesis using cloud_center by (simp add: cloud_select)
qed

theorem recenter_moves_by_cloud_center_witness:
  "calculateClothCenter (concat (map (take 1) [[4, 6], [8, 9]]))
       (concat (map (take 1) [[0, 1], [2, 3]]))
     = Some \<lparr> minX = 4, minY = 0, maxX = 8, maxY = 2, clothWidth = 4, clothHeight = 2,
              centerX = 6, centerY = 1 \<rparr>
   \<and> moved_posX (move_to_center True (500, 400) cloud_box [[4, 6], [8, 9]] [[0, 1], [2, 3]])
       = [[499, 501], [503, 504]]
   \<and> moved_posY (move_to_center True (500, 400) cloud_box [[4, 6], [8, 9]] [[0, 1], [2, 3]])
       = [[400, 401], [402, 403]]
   \<and> map_option centerX
       (clothCenter_after
          (move_to_center True (500, 400) cloud_box [[4, 6], [8, 9]] [[0, 1], [2, 3]]))
       = Some 501
   \<and> map_option centerY
       (clothCenter_after
          (move_to_center True (500, 400) cloud_box [[4, 6], [8, 9]] [[0, 1], [2, 3]]))
       = Some 401"
  using recenter_moves_by_cloud_center [of "[[4, 6], [8, 9]]" "[[0, 1], [2, 3]]"
      "\<lparr> minX = 4, minY = 0, maxX = 8, maxY = 2, clothWidth = 4, clothHeight = 2,
              centerX = 6, centerY = 1 \<rparr>" "(500, 400)" cloud_box]
  by (simp add: move_to_center_def Let_def cloud_box_def
      calculateClothCenter_def Math_min_def Math_max_def)

subsection \<open>Frame-index mapping\<close>

lemma parseInt_decimal:
  "0 \<le> x \<Longrightarrow> x = 0 \<or> 1 / 10 ^ 6 \<le> x \<Longrightarrow> x < 10 ^ 21 \<Longrightarrow> parseInt x = \<lfloor>x\<rfloor>"
  by (auto simp add: parseInt_def)

lemma frame_index_range:
  "1 \<le> frame_count \<Longrightarrow>
   0 \<le> frame_index reverse percent_time frame_count
   \<and> frame_index reverse percent_time frame_count \<le> frame_count - 1"
  by (simp add: frame_index_def Let_def)

lemma clamp_mono:
  fixes a b c :: real
  shows "a \<le> b \<Longrightarrow> max 0 (min a c) \<le> max 0 (min b c)"
  by (auto simp add: min_def max_def)

lemma index_at_forward_mono:
  assumes "0 < duration" and "0 \<le> frame_count" and "0 \<le> t1" and "t1 \<le> t2"
    and "t1 / duration * frame_count = 0 \<or> 1 / 10 ^ 6 \<le> t1 / duration * frame_count"
    and "t2 / duration * frame_count = 0 \<or> 1 / 10 ^ 6 \<le> t2 / duration * frame_count"
    and "t2 / duration * frame_count < 10 ^ 21"
  shows "index_at False duration frame_count t1 \<le> index_at False duration frame_count t2"
proof -
  let ?x1 = "t1 / duration * frame_count" and ?x2 = "t2 / duration * frame_count"
  have le: "?x1 \<le> ?x2"
    using assms(1,2,4) by (simp add: divide_right_mono mult_right_mono)
  have x1: "0 \<le> ?x1" using assms(1,2,3) by simp
  have p1: "parseInt ?x1 = \<lfloor>?x1\<rfloor>"
    using parseInt_decimal [OF x1 assms(5)] le assms(7) by simp
  have x2: "0 \<le> ?x2" using x1 le by simp
  have p2: "parseInt ?x2 = \<lfloor>?x2\<rfloor>"
    by (rule parseInt_decimal [OF x2 assms(6,7)])
  have fl: "(of_int \<lfloor>?x1\<rfloor> :: real) \<le> of_int \<lfloor>?x2\<rfloor>"
    using le by (simp add: floor_mono)
  show ?thesis
    unfolding index_at_def frame_index_def Let_def if_False p1 p2
    by (rule clamp_mono [OF fl])
qed

lemma index_at_reverse_mono:
  assumes "0 < duration" and "0 \<le> frame_count" and "0 \<le> t1" and "t1 \<le> t2"
    and "t1 / duration * frame_count = 0 \<or> 1 / 10 ^ 6 \<le> t1 / duration * frame_count"
    and "t2 / duration * frame_count = 0 \<or> 1 / 10 ^ 6 \<le> t2 / duration * frame_count"
    and "t2 / duration * frame_count < 10 ^ 21"
  shows "index_at True duration frame_count t2 \<le> index_at True duration frame_count t1"
proof -
  let ?x1 = "t1 / duration * frame_count" and ?x2 = "t2 / duration * frame_count"
  have le: "?x1 \<le> ?x2"
    using assms(1,2,4) by (simp add: divide_right_mono mult_right_mono)
  have x1: "0 \<le> ?x1" using assms(1,2,3) by simp
  have p1: "parseInt ?x1 = \<lfloor>?x1\<rfloor>"
    using parseInt_decimal [OF x1 assms(5)] le assms(7) by simp
  have x2: "0 \<le> ?x2" using x1 le by simp
  have p2: "parseInt ?x2 = \<lfloor>?x2\<rfloor>"
    by (rule parseInt_decimal [OF x2 assms(6,7)])
  have fl: "frame_count - 1 - (of_int \<lfloor>?x2\<rfloor> :: real) \<le> frame_count - 1 - of_int \<lfloor>?x1\<rfloor>"
    using le by (simp add: floor_mono)
  show ?thesis
    unfolding index_at_def frame_index_def Let_def if_True p1 p2
    by (rule clamp_mono [OF fl])
qed

lemma lead_digit_5em7: "lead_digit (1 / 2000000) = 5"
  by (simp add: lead_digit.simps)

text \<open>
  C4. The claim: the frame index is non-decreasing in the elapsed time for forward
  playback and non-increasing for reverse playback. The code for a trial of 2000 seconds
  and 10 frames: at 0.0001 s the product \<^verbatim>\<open>percent_time * frame_num\<close> is \<open>5\<cdot>10\<^sup>-\<^sup>7\<close>, which
  \<^verbatim>\<open>parseInt\<close> reads as 5, so the index is 5 forward and 4 in reverse; at 200 s the index
  is 1 forward and 8 in reverse.
\<close>

theorem frame_index_not_monotone:
  "(1::real) / 10000 < 200
   \<and> index_at False 2000 10 (1 / 10000) = 5
   \<and> index_at False 2000 10 200 = 1
   \<and> index_at True 2000 10 (1 / 10000) = 4
   \<and> index_at True 2000 10 200 = 8"
  by (simp add: index_at_def frame_index_def parseInt_def lead_digit.simps)

subsection \<open>Sampler\<close>

text \<open>The stable sort orders the dots by distance, then by input order.\<close>

lemma insort_key_closer:
  fixes f :: "nat \<Rightarrow> real"
  assumes "sorted_wrt (\<lambda>a b. f a < f b \<or> (f a = f b \<and> a < b)) ys"
    and "\<forall>y \<in> set ys. x < y"
  shows "sorted_wrt (\<lambda>a b. f a < f b \<or> (f a = f b \<and> a < b)) (insort_key f x ys)"
  using assms
proof (induction ys)
  case Nil
  then show ?case by simp
next
  case (Cons y ys)
  show ?case
  proof (cases "f x \<le> f y")
    case True
    have "\<forall>z \<in> set (y # ys). f x < f z \<or> (f x = f z \<and> x < z)"
    proof
      fix z assume z: "z \<in> set (y # ys)"
      have "f y \<le> f z" using z Cons.prems(1) by auto
      moreover have "x < z" using z Cons.prems(2) by auto
      ultimately show "f x < f z \<or> (f x = f z \<and> x < z)" using True by auto
    qed
    then show ?thesis using True Cons.prems(1) by simp
  next
    case False
    have "sorted_wrt (\<lambda>a b. f a < f b \<or> (f a = f b \<and> a < b)) (insort_key f x ys)"
      using Cons.IH Cons.prems by simp
    moreover have "\<forall>z \<in> set (insort_key f x ys). f y < f z \<or> (f y = f z \<and> y < z)"
      using False Cons.prems(1) by (auto simp add: set_insort_key)
    ultimately show ?thesis using False by simp
  qed
qed

lemma sort_key_closer:
  fixes f :: "nat \<Rightarrow> real"
  assumes "sorted_wrt (<) xs"
  shows "sorted_wrt (\<lambda>a b. f a < f b \<or> (f a = f b \<and> a < b)) (sort_key f xs)"
  using assms
proof (induction xs)
  case Nil
  then show ?case by simp
next
  case (Cons x xs)
  have "sorted_wrt (\<lambda>a b. f a < f b \<or> (f a = f b \<and> a < b)) (sort_key f xs)"
    using Cons by simp
  moreover have "\<forall>y \<in> set (sort_key f xs). x < y" using Cons.prems by simp
  ultimately show ?case by (simp add: insort_key_closer)
qed

lemma find_least:
  fixes f :: "nat \<Rightarrow> real"
  assumes "sorted_wrt (\<lambda>a b. f a < f b \<or> (f a = f b \<and> a < b)) ds"
    and "find P ds = Some d"
  shows "P d \<and> d \<in> set ds \<and> (\<forall>d' \<in> set ds. P d' \<longrightarrow> closer f d d')"
  using assms
proof (induction ds)
  case Nil
  then show ?case by simp
next
  case (Cons a ds)
  show ?case
  proof (cases "P a")
    case True
    then have "d = a" using Cons.prems(2) by simp
    then show ?thesis using True Cons.prems(1) by (auto simp add: closer_def)
  next
    case False
    then show ?thesis using Cons by auto
  qed
qed

text \<open>One cell takes the first dot of the sorted list that is not selected yet.\<close>

lemma add_closest_full:
  "dotsPerBin \<le> added \<Longrightarrow> add_closest dx dy needed ds added s = s"
  by (induction ds) simp_all

lemma add_closest_find:
  assumes "totalSelected s < needed"
  shows "add_closest dx dy needed ds 0 s
         = (case find (\<lambda>d. d \<notin> set (selectedDotIDs s)) ds of
              None \<Rightarrow> s
            | Some d \<Rightarrow>
                s\<lparr> selected_dot_posX := set_at (selected_dot_posX s) (totalSelected s) (dx ! d),
                   selected_dot_posY := set_at (selected_dot_posY s) (totalSelected s) (dy ! d),
                   selectedDotIDs := selectedDotIDs s @ [d],
                   totalSelected := totalSelected s + 1 \<rparr>)"
  using assms
  by (induction ds) (simp_all add: add_closest_full dotsPerBin_def)

lemma set_at_end: "set_at xs (length xs) v = xs @ [v]"
  by (simp add: set_at_def)

lemma distinct_below_length:
  assumes "distinct sel" and "set sel \<subseteq> {..<N}"
  shows "length sel \<le> N"
proof -
  have "card (set sel) \<le> card {..<N}" using assms(2) by (intro card_mono) simp_all
  then show ?thesis using assms(1) by (simp add: distinct_card)
qed

lemma distinct_below_room:
  assumes "distinct sel" and "set sel \<subseteq> {..<N}" and "d < N" and "d \<notin> set sel"
  shows "length sel < N"
proof -
  have "set sel \<subset> {..<N}" using assms(2,3,4) by auto
  then have "card (set sel) < card {..<N}" by (intro psubset_card_mono) simp_all
  then show ?thesis using assms(1) by (simp add: distinct_card)
qed

lemma distinct_covers:
  assumes "distinct sel" and "set sel \<subseteq> {..<N}" and "\<forall>d < N. d \<in> set sel"
  shows "length sel = N"
proof -
  have "set sel = {..<N}" using assms(2,3) by auto
  then have "card (set sel) = N" by simp
  then show ?thesis using assms(1) by (simp add: distinct_card)
qed

lemma nearest_unselected_append:
  "j < length sel \<Longrightarrow>
   nearest_unselected dx dy box g rnd (sel @ [d]) j = nearest_unselected dx dy box g rnd sel j"
  by (simp add: nearest_unselected_def nth_append)

lemma cell_step_sampled:
  assumes inv: "sampled dx dy box g rnd k s" and k: "k < binX_num g * binY_num g"
  shows "sampled dx dy box g rnd (Suc k) (cell_step dx dy box g rnd k s)"
proof -
  obtain ox oy where a: "anchor box g rnd k = (ox, oy)" by (cases "anchor box g rnd k")
  let ?f = "dot_distance dx dy ox oy"
  let ?L = "closestDotIDs dx dy ox oy"
  let ?sel = "selectedDotIDs s"
  let ?N = "length dx"
  from inv have tot: "totalSelected s = length ?sel"
    and px: "selected_dot_posX s = map ((!) dx) ?sel"
    and py: "selected_dot_posY s = map ((!) dy) ?sel"
    and dist: "distinct ?sel" and sub: "set ?sel \<subseteq> {..<?N}"
    and len: "length ?sel = min k ?N"
    and near: "\<forall>j < length ?sel. nearest_unselected dx dy box g rnd ?sel j"
    by (simp_all add: sampled_def)
  have room: "totalSelected s < binX_num g * binY_num g" using tot len k by simp
  have step: "cell_step dx dy box g rnd k s
      = (case find (\<lambda>d. d \<notin> set ?sel) ?L of
           None \<Rightarrow> s
         | Some d \<Rightarrow>
             s\<lparr> selected_dot_posX := set_at (selected_dot_posX s) (totalSelected s) (dx ! d),
                selected_dot_posY := set_at (selected_dot_posY s) (totalSelected s) (dy ! d),
                selectedDotIDs := ?sel @ [d],
                totalSelected := totalSelected s + 1 \<rparr>)"
    using add_closest_find [OF room] by (simp add: cell_step_def a)
  have sorted: "sorted_wrt (\<lambda>a b. ?f a < ?f b \<or> (?f a = ?f b \<and> a < b)) ?L"
    unfolding closestDotIDs_def by (rule sort_key_closer) simp
  have setL: "set ?L = {..<?N}" by (auto simp add: closestDotIDs_def)
  show ?thesis
  proof (cases "find (\<lambda>d. d \<notin> set ?sel) ?L")
    case None
    then have "\<forall>d < ?N. d \<in> set ?sel" using setL by (auto simp add: find_None_iff)
    then have "length ?sel = ?N" by (rule distinct_covers [OF dist sub])
    then have "length ?sel = min (Suc k) ?N" using len by simp
    then show ?thesis using inv by (simp add: step None sampled_def)
  next
    case (Some d)
    from find_least [OF sorted Some]
    have d_new: "d \<notin> set ?sel" and d_in: "d \<in> set ?L"
      and best: "\<forall>d' \<in> set ?L. d' \<notin> set ?sel \<longrightarrow> closer ?f d d'"
      by simp_all
    have dN: "d < ?N" using d_in setL by simp
    have "length ?sel < ?N" by (rule distinct_below_room [OF dist sub dN d_new])
    then have lk: "length ?sel = k" and kN: "k < ?N" using len by simp_all
    have a': "anchor box g rnd (length ?sel) = (ox, oy)" using a lk by simp
    have "nearest_unselected dx dy box g rnd (?sel @ [d]) (length ?sel)"
      using dN d_new best setL by (simp add: nearest_unselected_def a')
    then have here: "nearest_unselected dx dy box g rnd (?sel @ [d]) k"
      unfolding lk .
    have all: "\<forall>j < Suc k. nearest_unselected dx dy box g rnd (?sel @ [d]) j"
    proof (intro allI impI)
      fix j assume "j < Suc k"
      then consider "j < length ?sel" | "j = k" using lk by linarith
      then show "nearest_unselected dx dy box g rnd (?sel @ [d]) j"
      proof cases
        case 1
        then show ?thesis using near by (simp add: nearest_unselected_append)
      next
        case 2
        then show ?thesis using here by simp
      qed
    qed
    have sx: "set_at (selected_dot_posX s) (totalSelected s) (dx ! d)
        = map ((!) dx) (?sel @ [d])"
      and sy: "set_at (selected_dot_posY s) (totalSelected s) (dy ! d)
        = map ((!) dy) (?sel @ [d])"
      by (simp_all add: tot px py set_at_def)
    have new: "cell_step dx dy box g rnd k s
        = s\<lparr> selected_dot_posX := map ((!) dx) (?sel @ [d]),
             selected_dot_posY := map ((!) dy) (?sel @ [d]),
             selectedDotIDs := ?sel @ [d],
             totalSelected := Suc k \<rparr>"
      unfolding step Some option.case sx sy by (simp add: tot lk)
    show ?thesis
      unfolding new using dist sub d_new dN kN all lk
      by (simp add: sampled_def)
  qed
qed

lemma sampled_start:
  "sampled dx dy box g rnd 0
     \<lparr> selectedDotIDs = [], selected_dot_posX = [], selected_dot_posY = [], totalSelected = 0 \<rparr>"
  by (simp add: sampled_def)

lemma fold_cells_sampled:
  assumes "n \<le> binX_num g * binY_num g"
  shows "sampled dx dy box g rnd n
     (fold (cell_step dx dy box g rnd) [0..<n]
        \<lparr> selectedDotIDs = [], selected_dot_posX = [], selected_dot_posY = [],
          totalSelected = 0 \<rparr>)"
  using assms
proof (induction n)
  case 0
  then show ?case by (simp add: sampled_start)
next
  case (Suc n)
  then show ?case by (simp add: cell_step_sampled)
qed

lemma grid_select_sampled:
  "sampled dx dy box g rnd (binX_num g * binY_num g) (grid_select dx dy box g rnd)"
  using fold_cells_sampled [of "binX_num g * binY_num g" g dx dy box rnd]
  by (simp add: grid_select_def cells_def)

text \<open>
  C5. For a cloud in which every dot has a position at the reference frame, and for
  every grid: the grid loop selects at most \<open>gridX * gridY\<close> dots (as many as there are
  cells, or all dots of a smaller cloud), no dot id twice, and the \<open>k\<close>-th selected dot is
  the dot nearest to the jittered anchor of the \<open>k\<close>-th cell in scan order among the dots
  not selected before, ties broken by input order; the selected trajectories are those of
  the selected ids.
\<close>

theorem grid_select_nearest:
  assumes "length dot_posY = length dot_posX"
    and "[] \<notin> set dot_posX" and "[] \<notin> set dot_posY"
  shows "let s = grid_select dot_posX dot_posY box g rnd; sel = selectedDotIDs s in
           length sel \<le> binX_num g * binY_num g
         \<and> length sel = min (binX_num g * binY_num g) (length dot_posX)
         \<and> distinct sel
         \<and> (\<forall>k < length sel. nearest_unselected dot_posX dot_posY box g rnd sel k)
         \<and> selected_dot_posX s = map ((!) dot_posX) sel
         \<and> selected_dot_posY s = map ((!) dot_posY) sel
         \<and> totalSelected s = length sel"
  using grid_select_sampled [of dot_posX dot_posY box g rnd]
  by (simp add: sampled_def Let_def)

lemma four_center:
  "calculateClothCenter (concat (map (take 1) four_X)) (concat (map (take 1) four_Y)) = Some four_box"
  by (simp add: calculateClothCenter_def four_X_def four_Y_def four_box_def Math_min_def Math_max_def)

lemma four_select:
  "grid_select four_X four_Y four_box two_by_two (\<lambda>k. 1 / 2)
   = \<lparr> selectedDotIDs = [3, 1, 2, 0],
       selected_dot_posX = [[1], [1], [3], [3]],
       selected_dot_posY = [[1], [3], [1], [3]],
       totalSelected = 4 \<rparr>"
  by (simp add: grid_select_def cells_def two_by_two_def cell_step_def anchor_def xbin_def ybin_def
      four_box_def closestDotIDs_def four_X_def four_Y_def dot_distance_def dotsPerBin_def
      set_at_def upt_rec [of 0] upt_rec [of 1] upt_rec [of 2] upt_rec [of 3] upt_rec [of 4]
      eval_nat_numeral)

theorem grid_select_nearest_witness:
  "length four_Y = length four_X \<and> [] \<notin> set four_X \<and> [] \<notin> set four_Y
   \<and> selectedDotIDs (grid_select four_X four_Y four_box two_by_two (\<lambda>k. 1 / 2)) = [3, 1, 2, 0]
   \<and> nearest_unselected four_X four_Y four_box two_by_two (\<lambda>k. 1 / 2) [3, 1, 2, 0] 2"
  using grid_select_nearest [of four_Y four_X four_box two_by_two "\<lambda>k. 1 / 2"]
  by (simp add: four_select Let_def) (simp add: four_X_def four_Y_def)

end
